theory Spec2Isabelle
  imports Complex_Main "HOL-Library.Multiset" "HOL-Library.Sublist"
begin

section \<open>Order hooks: data model\<close>

text \<open>
  The module \<^verbatim>\<open>src/hooks/useOrders.ts\<close> declares two interfaces, \<^verbatim>\<open>Order\<close> and
  \<^verbatim>\<open>OrderItem\<close>, and three hooks. The interfaces are embedded as records. The
  payload of create-order is \<^verbatim>\<open>Omit<Order, 'id' | 'created_at' | 'updated_at' | 'order_items'>\<close>,
  so the records are stacked the way the TypeScript types are: \<open>orderData\<close> is the payload,
  \<open>order_row\<close> adds the three columns the store assigns, and \<open>Order\<close> adds the nested
  \<open>order_items\<close>. The column \<^verbatim>\<open>id\<close> is written \<open>o_id\<close> (orders) and \<open>oi_id\<close> (order items),
  and the fields of the item records carry a prefix, because record fields share one name
  space. A JavaScript \<^verbatim>\<open>number\<close> is carried, never computed with, and is a \<open>real\<close> here.
  Timestamps (\<^verbatim>\<open>created_at\<close>, \<^verbatim>\<open>updated_at\<close>, \<^verbatim>\<open>new Date().toISOString()\<close>) are instants,
  a \<open>nat\<close>; the ISO text is their serialisation.
\<close>

type_synonym number = real
type_synonym timestamp = nat

datatype OrderType = Dine_in | Takeaway

datatype OrderStatus = New | Preparing | Ready | Served | Cancelled

datatype json =
    JNull
  | JBool bool
  | JNumber number
  | JString string
  | JArray "json list"
  | JObject "(string \<times> json) list"

text \<open>\<^verbatim>\<open>Record<string, any>\<close>: the empty object \<^verbatim>\<open>{}\<close> is the empty list.\<close>

type_synonym json_record = "(string \<times> json) list"

record orderData =
  order_number :: string
  customer_name :: string
  customer_email :: string
  customer_phone :: "string option"
  order_type :: OrderType
  status :: OrderStatus
  total_amount :: number
  "notes" :: "string option"

record order_row = orderData +
  o_id :: string
  created_at :: timestamp
  updated_at :: timestamp

record menu_items_embed =
  menu_name :: string
  menu_description :: string

record order_item_row =
  oi_id :: string
  oi_order_id :: string
  oi_menu_item_id :: string
  oi_quantity :: number
  oi_price :: number
  oi_selected_options :: "json_record option"
  oi_selected_add_ons :: "json_record option"

record OrderItem = order_item_row +
  menu_items :: "menu_items_embed option"

record Order = order_row +
  order_items :: "OrderItem list"

text \<open>An element of the \<^verbatim>\<open>items\<close> argument of create-order; both option mappings may be absent.\<close>

record item_input =
  menu_item_id :: string
  quantity :: number
  price :: number
  selected_options :: "json_record option"
  selected_add_ons :: "json_record option"

text \<open>An element of \<^verbatim>\<open>orderItems\<close>, the array create-order sends to \<^verbatim>\<open>order_items\<close>.\<close>

record new_order_item =
  ins_order_id :: string
  ins_menu_item_id :: string
  ins_quantity :: number
  ins_price :: number
  ins_selected_options :: json_record
  ins_selected_add_ons :: json_record

text \<open>The object passed to \<^verbatim>\<open>.update(...)\<close> by update-status.\<close>

record order_patch =
  patch_status :: OrderStatus
  patch_updated_at :: timestamp

text \<open>The error object of the remote store; the hooks read only \<^verbatim>\<open>message\<close>.\<close>

record PostgrestError =
  message :: string
  details :: string
  hint :: string
  code :: string

section \<open>The collaborators\<close>

subsection \<open>Remote store boundary\<close>

text \<open>
  The four query-builder chains of the module, as the requests they send:
  \<^item> \<open>Select_orders asc\<close> is
    \<^verbatim>\<open>from('orders').select(<11 columns, order_items(7 columns, menu_items(name, description))>).order('created_at', {ascending: asc})\<close>;
  \<^item> \<open>Update_order p i\<close> is \<^verbatim>\<open>from('orders').update(p).eq('id', i).select().single()\<close>;
  \<^item> \<open>Insert_order d\<close> is \<^verbatim>\<open>from('orders').insert(d).select().single()\<close>;
  \<^item> \<open>Insert_order_items xs\<close> is \<^verbatim>\<open>from('order_items').insert(xs)\<close>.
  There is no other request in the module; in particular none deletes.
\<close>

datatype request =
    Select_orders bool
  | Update_order order_patch string
  | Insert_order orderData
  | Insert_order_items "new_order_item list"

text \<open>
  The client is a parameter: a record of the four operations over a store state \<open>'s\<close>.
  An awaited response \<^verbatim>\<open>{ data, error }\<close> has exactly one of the two set, so it is a sum
  with \<open>Inl\<close> the error.
\<close>

record 's supabase =
  select_orders :: "bool \<Rightarrow> 's \<Rightarrow> (PostgrestError + Order list) \<times> 's"
  update_order :: "order_patch \<Rightarrow> string \<Rightarrow> 's \<Rightarrow> (PostgrestError + order_row) \<times> 's"
  insert_order :: "orderData \<Rightarrow> 's \<Rightarrow> (PostgrestError + order_row) \<times> 's"
  insert_order_items :: "new_order_item list \<Rightarrow> 's \<Rightarrow> (PostgrestError + unit) \<times> 's"

subsection \<open>Cache and notification boundaries\<close>

datatype variant = Destructive

record toast_props =
  title :: string
  description :: string
  variant :: "variant option"

record query_state =
  cached :: "Order list option"
  isInvalidated :: bool

type_synonym query_cache = "string list \<Rightarrow> query_state option"

text \<open>
  Everything the hooks act on: the remote store, the log of the requests sent to it (oldest
  first), the query cache, the notifications shown so far, and the client's clock.
\<close>

record 's world =
  store :: 's
  sent :: "request list"
  queryCache :: query_cache
  toasts :: "toast_props list"
  date_now :: timestamp

text \<open>
  Modelled from the spec: the cache boundary's "mark stale, trigger refetch" operation of
  the caching library, which is not part of the module. A query is matched when its key
  starts with the given key; the refetch itself is the library's later work.
\<close>

definition invalidateQueries :: "string list \<Rightarrow> 's world \<Rightarrow> 's world" where
  "invalidateQueries queryKey w =
     w\<lparr>queryCache := (\<lambda>k. if prefix queryKey k
                             then map_option (\<lambda>q. q\<lparr>isInvalidated := True\<rparr>) (queryCache w k)
                             else queryCache w k)\<rparr>"

text \<open>
  Modelled from the spec: the notification boundary, a fire-and-forget call that shows one
  more toast.
\<close>

definition toast :: "toast_props \<Rightarrow> 's world \<Rightarrow> 's world" where
  "toast t w = w\<lparr>toasts := toasts w @ [t]\<rparr>"

text \<open>
  Modelled from the spec: one run of a mutation of the caching library. It awaits
  \<^verbatim>\<open>mutationFn\<close>; when that resolves it calls \<^verbatim>\<open>onSuccess\<close>, when it throws it calls
  \<^verbatim>\<open>onError\<close> with the thrown error, and the outcome is handed to the caller.
\<close>

definition useMutation ::
  "('v \<Rightarrow> 'w \<Rightarrow> ('e + 'd) \<times> 'w) \<Rightarrow> ('w \<Rightarrow> 'w) \<Rightarrow> ('e \<Rightarrow> 'w \<Rightarrow> 'w) \<Rightarrow> 'v \<Rightarrow> 'w \<Rightarrow> ('e + 'd) \<times> 'w" where
  "useMutation mutationFn onSuccess onError variables w =
     (case mutationFn variables w of
        (Inl error, w') \<Rightarrow> (Inl error, onError error w')
      | (Inr data, w') \<Rightarrow> (Inr data, onSuccess w'))"

text \<open>Awaiting one request: the store answers and moves on, and the request is logged.\<close>

definition await_select_orders ::
  "'s supabase \<Rightarrow> bool \<Rightarrow> 's world \<Rightarrow> (PostgrestError + Order list) \<times> 's world" where
  "await_select_orders supabase asc w =
     (case select_orders supabase asc (store w) of
        (r, s') \<Rightarrow> (r, w\<lparr>store := s', sent := sent w @ [Select_orders asc]\<rparr>))"

definition await_update_order ::
  "'s supabase \<Rightarrow> order_patch \<Rightarrow> string \<Rightarrow> 's world \<Rightarrow> (PostgrestError + order_row) \<times> 's world" where
  "await_update_order supabase p i w =
     (case update_order supabase p i (store w) of
        (r, s') \<Rightarrow> (r, w\<lparr>store := s', sent := sent w @ [Update_order p i]\<rparr>))"

definition await_insert_order ::
  "'s supabase \<Rightarrow> orderData \<Rightarrow> 's world \<Rightarrow> (PostgrestError + order_row) \<times> 's world" where
  "await_insert_order supabase d w =
     (case insert_order supabase d (store w) of
        (r, s') \<Rightarrow> (r, w\<lparr>store := s', sent := sent w @ [Insert_order d]\<rparr>))"

definition await_insert_order_items ::
  "'s supabase \<Rightarrow> new_order_item list \<Rightarrow> 's world \<Rightarrow> (PostgrestError + unit) \<times> 's world" where
  "await_insert_order_items supabase xs w =
     (case insert_order_items supabase xs (store w) of
        (r, s') \<Rightarrow> (r, w\<lparr>store := s', sent := sent w @ [Insert_order_items xs]\<rparr>))"

section \<open>The hooks\<close>

subsection \<open>useOrders\<close>

definition useOrders_queryKey :: "string list" where
  "useOrders_queryKey = [''orders'']"

definition useOrders_queryFn ::
  "'s supabase \<Rightarrow> 's world \<Rightarrow> (PostgrestError + Order list) \<times> 's world" where
  "useOrders_queryFn supabase w =
     (case await_select_orders supabase False w of
        (Inl error, w') \<Rightarrow> (Inl error, w')
      | (Inr data, w') \<Rightarrow> (Inr data, w'))"

subsection \<open>useUpdateOrderStatus\<close>

definition useUpdateOrderStatus_mutationFn ::
  "'s supabase \<Rightarrow> string \<times> OrderStatus \<Rightarrow> 's world \<Rightarrow> (PostgrestError + order_row) \<times> 's world" where
  "useUpdateOrderStatus_mutationFn supabase variables w =
     (case variables of (i, st) \<Rightarrow>
        (case await_update_order supabase
                \<lparr>patch_status = st, patch_updated_at = date_now w\<rparr> i w of
           (Inl error, w') \<Rightarrow> (Inl error, w')
         | (Inr data, w') \<Rightarrow> (Inr data, w')))"

definition useUpdateOrderStatus_onSuccess :: "'s world \<Rightarrow> 's world" where
  "useUpdateOrderStatus_onSuccess w =
     toast \<lparr>title = ''Order status updated'',
            description = ''The order status has been updated successfully.'',
            variant = None\<rparr>
       (invalidateQueries [''orders''] w)"

definition useUpdateOrderStatus_onError :: "PostgrestError \<Rightarrow> 's world \<Rightarrow> 's world" where
  "useUpdateOrderStatus_onError error w =
     toast \<lparr>title = ''Error'',
            description = ''Failed to update order status: '' @ message error,
            variant = Some Destructive\<rparr> w"

definition useUpdateOrderStatus ::
  "'s supabase \<Rightarrow> string \<times> OrderStatus \<Rightarrow> 's world \<Rightarrow> (PostgrestError + order_row) \<times> 's world" where
  "useUpdateOrderStatus supabase =
     useMutation (useUpdateOrderStatus_mutationFn supabase)
       useUpdateOrderStatus_onSuccess useUpdateOrderStatus_onError"

subsection \<open>useCreateOrder\<close>

text \<open>
  \<^verbatim>\<open>item.selected_options || {}\<close>: the left operand is an object (truthy, also when
  empty) or \<^verbatim>\<open>undefined\<close>.
\<close>

definition or_empty :: "json_record option \<Rightarrow> json_record" where
  "or_empty m = (case m of None \<Rightarrow> [] | Some r \<Rightarrow> r)"

definition orderItems :: "order_row \<Rightarrow> item_input list \<Rightarrow> new_order_item list" where
  "orderItems order items =
     map (\<lambda>item. \<lparr>ins_order_id = o_id order,
                   ins_menu_item_id = menu_item_id item,
                   ins_quantity = quantity item,
                   ins_price = price item,
                   ins_selected_options = or_empty (selected_options item),
                   ins_selected_add_ons = or_empty (selected_add_ons item)\<rparr>) items"

definition useCreateOrder_mutationFn ::
  "'s supabase \<Rightarrow> orderData \<times> item_input list \<Rightarrow> 's world \<Rightarrow> (PostgrestError + order_row) \<times> 's world" where
  "useCreateOrder_mutationFn supabase variables w =
     (case variables of (orderData, items) \<Rightarrow>
        (case await_insert_order supabase orderData w of
           (Inl orderError, w1) \<Rightarrow> (Inl orderError, w1)
         | (Inr order, w1) \<Rightarrow>
             (case await_insert_order_items supabase (orderItems order items) w1 of
                (Inl itemsError, w2) \<Rightarrow> (Inl itemsError, w2)
              | (Inr _, w2) \<Rightarrow> (Inr order, w2))))"

definition useCreateOrder_onSuccess :: "'s world \<Rightarrow> 's world" where
  "useCreateOrder_onSuccess w =
     toast \<lparr>title = ''Order created'',
            description = ''Your order has been placed successfully.'',
            variant = None\<rparr>
       (invalidateQueries [''orders''] w)"

definition useCreateOrder_onError :: "PostgrestError \<Rightarrow> 's world \<Rightarrow> 's world" where
  "useCreateOrder_onError error w =
     toast \<lparr>title = ''Error'',
            description = ''Failed to create order: '' @ message error,
            variant = Some Destructive\<rparr> w"

definition useCreateOrder ::
  "'s supabase \<Rightarrow> orderData \<times> item_input list \<Rightarrow> 's world \<Rightarrow> (PostgrestError + order_row) \<times> 's world" where
  "useCreateOrder supabase =
     useMutation (useCreateOrder_mutationFn supabase)
       useCreateOrder_onSuccess useCreateOrder_onError"

section \<open>A model of the remote store\<close>

text \<open>
  Modelled from the spec: the remote store (the hosted database behind the client), which
  is not part of the module. It has the tables \<^verbatim>\<open>orders\<close>, \<^verbatim>\<open>order_items\<close> and
  \<^verbatim>\<open>menu_items\<close>, held in insertion order, and answers the three kinds of operation the
  module consumes: the select with a nested-relation projection and an order-by clause,
  the update by equality filter returning the modified row, and the insert. The store
  assigns \<^verbatim>\<open>id\<close>, \<^verbatim>\<open>created_at\<close> and \<^verbatim>\<open>updated_at\<close> to a new order row and \<^verbatim>\<open>id\<close> to a new item
  row. It enforces that the \<^verbatim>\<open>order_id\<close> of an item references an existing order. Every
  other reason for which a request may fail (network, validation, another constraint) is
  the schedule \<open>faults\<close>: each request consumes its head, and \<open>Some e\<close> makes the request
  fail with \<open>e\<close> and write nothing.
\<close>

record menu_item_row =
  m_id :: string
  m_name :: string
  m_description :: string

text \<open>
  Modelled from the spec: the state of the remote store. The three tables, the fault
  schedule, and what the store draws on to fill the columns it assigns: an id generator
  with its counter, and the store's own clock.
\<close>

record pg =
  tbl_orders :: "order_row list"
  tbl_order_items :: "order_item_row list"
  tbl_menu_items :: "menu_item_row list"
  faults :: "PostgrestError option list"
  gen_random_uuid :: "nat \<Rightarrow> string"
  serial :: nat
  pg_now :: timestamp

text \<open>
  Modelled from the spec: whether the store fails the next request for a reason outside the
  tables ("any remote-store failure (validation, network, constraint violation)").
\<close>

definition next_fault :: "pg \<Rightarrow> PostgrestError option \<times> pg" where
  "next_fault s = (case faults s of [] \<Rightarrow> (None, s) | f # fs \<Rightarrow> (f, s\<lparr>faults := fs\<rparr>))"

text \<open>
  Modelled from the spec: the error objects the store itself answers with. The first is
  that of \<^verbatim>\<open>.single()\<close> when the result is not exactly one row, the second that of the
  foreign key of \<^verbatim>\<open>order_items\<close>.
\<close>

definition PGRST116 :: PostgrestError where
  "PGRST116 = \<lparr>message = ''JSON object requested, multiple (or no) rows returned'',
               details = [], hint = [], code = ''PGRST116''\<rparr>"

definition foreign_key_violation :: PostgrestError where
  "foreign_key_violation =
     \<lparr>message = ''insert or update on table order_items violates foreign key constraint'',
      details = [], hint = [], code = ''23503''\<rparr>"

text \<open>
  Modelled from the spec: the nested-relation projection of the select, \<^verbatim>\<open>order_items\<close>
  join-fetching \<^verbatim>\<open>menu_items (name, description)\<close>; an item whose menu item does not exist
  carries none.
\<close>

definition embed_menu_items :: "pg \<Rightarrow> order_item_row \<Rightarrow> OrderItem" where
  "embed_menu_items s i =
     order_item_row.extend i
       (OrderItem.fields
          (map_option (\<lambda>m. \<lparr>menu_name = m_name m, menu_description = m_description m\<rparr>)
             (find (\<lambda>m. m_id m = oi_menu_item_id i) (tbl_menu_items s))))"

text \<open>
  Modelled from the spec: the nested-relation projection of the select, each order with
  the rows of \<^verbatim>\<open>order_items\<close> whose \<^verbatim>\<open>order_id\<close> is its id.
\<close>

definition embed_order_items :: "pg \<Rightarrow> order_row \<Rightarrow> Order" where
  "embed_order_items s r =
     order_row.extend r
       (Order.fields
          (map (embed_menu_items s) (filter (\<lambda>i. oi_order_id i = o_id r) (tbl_order_items s))))"

text \<open>
  Modelled from the spec: the order-by clause of the select on \<^verbatim>\<open>created_at\<close>, ascending or
  descending as the request says.
\<close>

definition order_by_created_at :: "bool \<Rightarrow> order_row list \<Rightarrow> order_row list" where
  "order_by_created_at ascending rows =
     (if ascending then sort_key created_at rows else rev (sort_key created_at rows))"

text \<open>
  Modelled from the spec: the store's "select with a nested-relation projection and order
  by clause". It reads all rows of \<^verbatim>\<open>orders\<close> and writes nothing.
\<close>

definition pg_select_orders :: "bool \<Rightarrow> pg \<Rightarrow> (PostgrestError + Order list) \<times> pg" where
  "pg_select_orders ascending s =
     (case next_fault s of
        (Some e, s') \<Rightarrow> (Inl e, s')
      | (None, s') \<Rightarrow>
          (Inr (map (embed_order_items s') (order_by_created_at ascending (tbl_orders s'))), s'))"

text \<open>
  Modelled from the spec: what the store's update writes into a matching row.
\<close>

definition apply_patch :: "order_patch \<Rightarrow> order_row \<Rightarrow> order_row" where
  "apply_patch p r = r\<lparr>status := patch_status p, updated_at := patch_updated_at p\<rparr>"

text \<open>
  Modelled from the spec: the store's "update by equality filter returning the modified
  row". The chain ends in \<^verbatim>\<open>.single()\<close>, which demands exactly one returned row: with none,
  or more than one, the request fails and the update is not kept.
\<close>

definition pg_update_order ::
  "order_patch \<Rightarrow> string \<Rightarrow> pg \<Rightarrow> (PostgrestError + order_row) \<times> pg" where
  "pg_update_order p i s =
     (case next_fault s of
        (Some e, s') \<Rightarrow> (Inl e, s')
      | (None, s') \<Rightarrow>
          (let rows' = map (\<lambda>r. if o_id r = i then apply_patch p r else r) (tbl_orders s')
           in case filter (\<lambda>r. o_id r = i) rows' of
                [r] \<Rightarrow> (Inr r, s'\<lparr>tbl_orders := rows'\<rparr>)
              | _ \<Rightarrow> (Inl PGRST116, s')))"

text \<open>
  Modelled from the spec: the store's "insert returning the inserted row" on \<^verbatim>\<open>orders\<close>. The
  store assigns the id and both timestamps.
\<close>

definition pg_insert_order :: "orderData \<Rightarrow> pg \<Rightarrow> (PostgrestError + order_row) \<times> pg" where
  "pg_insert_order d s =
     (case next_fault s of
        (Some e, s') \<Rightarrow> (Inl e, s')
      | (None, s') \<Rightarrow>
          (let r = orderData.extend d
                     (order_row.fields (gen_random_uuid s' (serial s')) (pg_now s') (pg_now s'))
           in (Inr r, s'\<lparr>tbl_orders := tbl_orders s' @ [r], serial := Suc (serial s')\<rparr>)))"

text \<open>
  Modelled from the spec: the row of \<^verbatim>\<open>order_items\<close> the store makes of an inserted object;
  the store assigns the id.
\<close>

definition new_item_row :: "pg \<Rightarrow> nat \<times> new_order_item \<Rightarrow> order_item_row" where
  "new_item_row s kx =
     (case kx of (k, x) \<Rightarrow>
        \<lparr>oi_id = gen_random_uuid s k,
         oi_order_id = ins_order_id x,
         oi_menu_item_id = ins_menu_item_id x,
         oi_quantity = ins_quantity x,
         oi_price = ins_price x,
         oi_selected_options = Some (ins_selected_options x),
         oi_selected_add_ons = Some (ins_selected_add_ons x)\<rparr>)"

text \<open>
  Modelled from the spec: the store's insert on \<^verbatim>\<open>order_items\<close>, one row per object, none
  for the empty array. "Every OrderItem's \<^verbatim>\<open>order_id\<close> must reference an existing Order;
  enforced by the remote store": otherwise the request fails and writes nothing.
\<close>

definition pg_insert_order_items ::
  "new_order_item list \<Rightarrow> pg \<Rightarrow> (PostgrestError + unit) \<times> pg" where
  "pg_insert_order_items xs s =
     (case next_fault s of
        (Some e, s') \<Rightarrow> (Inl e, s')
      | (None, s') \<Rightarrow>
          (if list_all (\<lambda>x. ins_order_id x \<in> set (map o_id (tbl_orders s'))) xs
           then (Inr (),
                 s'\<lparr>tbl_order_items :=
                       tbl_order_items s' @ map (new_item_row s') (enumerate (serial s') xs),
                    serial := serial s' + length xs\<rparr>)
           else (Inl foreign_key_violation, s')))"

text \<open>
  Modelled from the spec: the client whose four operations are answered by this store.
\<close>

definition pg_client :: "pg supabase" where
  "pg_client =
     \<lparr>select_orders = pg_select_orders,
      update_order = pg_update_order,
      insert_order = pg_insert_order,
      insert_order_items = pg_insert_order_items\<rparr>"

text \<open>The store answers the next \<open>n\<close> requests without a scheduled fault.\<close>

definition no_faults :: "nat \<Rightarrow> pg \<Rightarrow> bool" where
  "no_faults n s = list_all (\<lambda>f. f = None) (take n (faults s))"

subsection \<open>Example data\<close>

definition example_orderData :: orderData where
  "example_orderData =
     \<lparr>order_number = ''A-1'', customer_name = ''Ann'', customer_email = ''ann@example.org'',
      customer_phone = None, order_type = Takeaway, status = New, total_amount = 12,
      notes = None\<rparr>"

definition example_order :: "string \<Rightarrow> timestamp \<Rightarrow> order_row" where
  "example_order i t = orderData.extend example_orderData (order_row.fields i t t)"

definition example_item :: order_item_row where
  "example_item =
     \<lparr>oi_id = ''i1'', oi_order_id = ''o2'', oi_menu_item_id = ''m1'', oi_quantity = 2,
      oi_price = 3, oi_selected_options = None, oi_selected_add_ons = None\<rparr>"

definition example_items :: "item_input list" where
  "example_items =
     [\<lparr>menu_item_id = ''m1'', quantity = 2, price = 3, selected_options = None,
       selected_add_ons = Some [(''milk'', JBool True)]\<rparr>,
      \<lparr>menu_item_id = ''m1'', quantity = 1, price = 5, selected_options = Some [],
       selected_add_ons = None\<rparr>]"

definition network_error :: PostgrestError where
  "network_error = \<lparr>message = ''Failed to fetch'', details = [], hint = [], code = []\<rparr>"

definition example_pg :: "PostgrestError option list \<Rightarrow> pg" where
  "example_pg fs =
     \<lparr>tbl_orders = [example_order ''o1'' 10, example_order ''o2'' 30, example_order ''o3'' 20],
      tbl_order_items = [example_item],
      tbl_menu_items = [\<lparr>m_id = ''m1'', m_name = ''Tea'', m_description = ''Hot''\<rparr>],
      faults = fs,
      gen_random_uuid = (\<lambda>n. replicate n CHR ''u''),
      serial = 1,
      pg_now = 40\<rparr>"

definition example_world :: "PostgrestError option list \<Rightarrow> pg world" where
  "example_world fs =
     \<lparr>store = example_pg fs, sent = [],
      queryCache = (\<lambda>k. if k = [''orders''] then Some \<lparr>cached = Some [], isInvalidated = False\<rparr>
                         else None),
      toasts = [], date_now = 50\<rparr>"

section \<open>Properties\<close>

subsection \<open>The hooks over any client\<close>

lemma await_select_orders_eq:
  "await_select_orders sb asc w =
     (fst (select_orders sb asc (store w)),
      w\<lparr>store := snd (select_orders sb asc (store w)), sent := sent w @ [Select_orders asc]\<rparr>)"
  by (simp add: await_select_orders_def case_prod_beta)

lemma await_update_order_eq:
  "await_update_order sb p i w =
     (fst (update_order sb p i (store w)),
      w\<lparr>store := snd (update_order sb p i (store w)), sent := sent w @ [Update_order p i]\<rparr>)"
  by (simp add: await_update_order_def case_prod_beta)

lemma await_insert_order_eq:
  "await_insert_order sb d w =
     (fst (insert_order sb d (store w)),
      w\<lparr>store := snd (insert_order sb d (store w)), sent := sent w @ [Insert_order d]\<rparr>)"
  by (simp add: await_insert_order_def case_prod_beta)

lemma await_insert_order_items_eq:
  "await_insert_order_items sb xs w =
     (fst (insert_order_items sb xs (store w)),
      w\<lparr>store := snd (insert_order_items sb xs (store w)),
        sent := sent w @ [Insert_order_items xs]\<rparr>)"
  by (simp add: await_insert_order_items_def case_prod_beta)

lemma useOrders_queryFn_eq: "useOrders_queryFn sb w = await_select_orders sb False w"
  by (simp add: useOrders_queryFn_def split: prod.splits sum.splits)

lemma useUpdateOrderStatus_mutationFn_eq:
  "useUpdateOrderStatus_mutationFn sb (i, st) w =
     await_update_order sb \<lparr>patch_status = st, patch_updated_at = date_now w\<rparr> i w"
  by (simp add: useUpdateOrderStatus_mutationFn_def split: prod.splits sum.splits)

lemma useCreateOrder_mutationFn_Inl:
  assumes "fst (insert_order sb d (store w)) = Inl e"
  shows "useCreateOrder_mutationFn sb (d, items) w =
           (Inl e, w\<lparr>store := snd (insert_order sb d (store w)),
                     sent := sent w @ [Insert_order d]\<rparr>)"
  using assms by (simp add: useCreateOrder_mutationFn_def await_insert_order_eq)

lemma useCreateOrder_mutationFn_Inr:
  assumes "fst (insert_order sb d (store w)) = Inr order"
  shows "useCreateOrder_mutationFn sb (d, items) w =
           (case fst (insert_order_items sb (orderItems order items)
                        (snd (insert_order sb d (store w)))) of
              Inl e \<Rightarrow> Inl e | Inr u \<Rightarrow> Inr order,
            w\<lparr>store := snd (insert_order_items sb (orderItems order items)
                               (snd (insert_order sb d (store w)))),
              sent := sent w @ [Insert_order d, Insert_order_items (orderItems order items)]\<rparr>)"
  using assms
  by (simp add: useCreateOrder_mutationFn_def await_insert_order_eq
      await_insert_order_items_eq split: sum.splits)

lemma mutationFn_frame_update:
  "queryCache (snd (useUpdateOrderStatus_mutationFn sb v w)) = queryCache w"
  "toasts (snd (useUpdateOrderStatus_mutationFn sb v w)) = toasts w"
  by (cases v; simp add: useUpdateOrderStatus_mutationFn_eq await_update_order_eq)+

lemma mutationFn_frame_create:
  "queryCache (snd (useCreateOrder_mutationFn sb v w)) = queryCache w"
  "toasts (snd (useCreateOrder_mutationFn sb v w)) = toasts w"
  by (cases v; cases "fst (insert_order sb (fst v) (store w))";
      simp add: useCreateOrder_mutationFn_Inl useCreateOrder_mutationFn_Inr)+

lemma useMutation_eq:
  "useMutation f s h v w =
     (case fst (f v w) of
        Inl e \<Rightarrow> (Inl e, h e (snd (f v w)))
      | Inr d \<Rightarrow> (Inr d, s (snd (f v w))))"
  by (simp add: useMutation_def split: prod.splits sum.splits)

lemma useMutation_Inl:
  "fst (useMutation f s h v w) = Inl e \<Longrightarrow>
     fst (f v w) = Inl e \<and> snd (useMutation f s h v w) = h e (snd (f v w))"
  by (auto simp: useMutation_def split: prod.splits sum.splits)

lemma useMutation_Inr:
  "fst (useMutation f s h v w) = Inr d \<Longrightarrow>
     fst (f v w) = Inr d \<and> snd (useMutation f s h v w) = s (snd (f v w))"
  by (auto simp: useMutation_def split: prod.splits sum.splits)

subsection \<open>The modelled store\<close>

lemma next_fault_frame [simp]:
  "tbl_orders (snd (next_fault s)) = tbl_orders s"
  "tbl_order_items (snd (next_fault s)) = tbl_order_items s"
  "tbl_menu_items (snd (next_fault s)) = tbl_menu_items s"
  "gen_random_uuid (snd (next_fault s)) = gen_random_uuid s"
  "serial (snd (next_fault s)) = serial s"
  "pg_now (snd (next_fault s)) = pg_now s"
  by (simp_all add: next_fault_def split: list.splits)

lemma no_faults_Suc:
  "no_faults (Suc n) s \<Longrightarrow> fst (next_fault s) = None \<and> no_faults n (snd (next_fault s))"
  by (auto simp: no_faults_def next_fault_def split: list.splits)

lemma embed_menu_items_cong:
  "tbl_menu_items s = tbl_menu_items t \<Longrightarrow> embed_menu_items s = embed_menu_items t"
  by (rule ext) (simp add: embed_menu_items_def)

lemma embed_order_items_cong:
  "tbl_menu_items s = tbl_menu_items t \<Longrightarrow> tbl_order_items s = tbl_order_items t \<Longrightarrow>
   embed_order_items s = embed_order_items t"
  by (rule ext) (simp add: embed_order_items_def embed_menu_items_cong [of s t])

lemma truncate_embed_order_items [simp]:
  "order_row.truncate (embed_order_items s r) = r"
  by (simp add: embed_order_items_def order_row.truncate_def order_row.extend_def)

lemma created_at_embed_order_items [simp]:
  "created_at (embed_order_items s r) = created_at r"
  "o_id (embed_order_items s r) = o_id r"
  by (simp_all add: embed_order_items_def order_row.extend_def)

lemma order_items_embed_order_items:
  "order_items (embed_order_items s r) =
     map (embed_menu_items s) (filter (\<lambda>i. oi_order_id i = o_id r) (tbl_order_items s))"
  by (simp add: embed_order_items_def order_row.extend_def Order.fields_def)

lemma truncate_embed_menu_items [simp]:
  "order_item_row.truncate (embed_menu_items s i) = i"
  by (simp add: embed_menu_items_def order_item_row.truncate_def order_item_row.extend_def)

lemma menu_items_embed_menu_items:
  "menu_items (embed_menu_items s i) =
     map_option (\<lambda>m. \<lparr>menu_name = m_name m, menu_description = m_description m\<rparr>)
       (find (\<lambda>m. m_id m = oi_menu_item_id i) (tbl_menu_items s))"
  "oi_menu_item_id (embed_menu_items s i) = oi_menu_item_id i"
  by (simp_all add: embed_menu_items_def order_item_row.extend_def OrderItem.fields_def)

lemma sorted_order_by_created_at_desc:
  "sorted_wrt (\<lambda>a b. created_at b \<le> created_at a) (order_by_created_at False rows)"
proof -
  have "sorted (map created_at (sort_key created_at rows))"
    by (rule sorted_sort_key)
  then have "sorted_wrt (\<lambda>a b. created_at a \<le> created_at b) (sort_key created_at rows)"
    by (simp add: sorted_wrt_map)
  then show ?thesis
    by (simp add: order_by_created_at_def sorted_wrt_rev)
qed

lemma mset_order_by_created_at: "mset (order_by_created_at asc rows) = mset rows"
  by (simp add: order_by_created_at_def)

lemma pg_select_orders_eq:
  "pg_select_orders asc s =
     (case fst (next_fault s) of
        Some e \<Rightarrow> (Inl e, snd (next_fault s))
      | None \<Rightarrow> (Inr (map (embed_order_items s) (order_by_created_at asc (tbl_orders s))),
                 snd (next_fault s)))"
proof -
  have e: "embed_order_items (snd (next_fault s)) = embed_order_items s"
    by (rule embed_order_items_cong) simp_all
  show ?thesis
    by (simp add: pg_select_orders_def case_prod_beta e split: option.splits)
qed

lemma pg_select_orders_ok:
  assumes "fst (next_fault s) = None"
  shows "fst (pg_select_orders asc s) =
           Inr (map (embed_order_items s) (order_by_created_at asc (tbl_orders s)))"
  using assms by (simp add: pg_select_orders_eq)

lemma pg_update_order_eq:
  "pg_update_order p i s =
     (case fst (next_fault s) of
        Some e \<Rightarrow> (Inl e, snd (next_fault s))
      | None \<Rightarrow>
          (case filter (\<lambda>r. o_id r = i)
                  (map (\<lambda>r. if o_id r = i then apply_patch p r else r) (tbl_orders s)) of
             [r] \<Rightarrow> (Inr r, (snd (next_fault s))
                        \<lparr>tbl_orders := map (\<lambda>r. if o_id r = i then apply_patch p r else r)
                                         (tbl_orders s)\<rparr>)
           | _ \<Rightarrow> (Inl PGRST116, snd (next_fault s))))"
  by (simp add: pg_update_order_def case_prod_beta Let_def split: option.splits list.splits)

lemma o_id_apply_patch [simp]: "o_id (apply_patch p r) = o_id r"
  by (simp add: apply_patch_def)

lemma filter_patched:
  "filter (\<lambda>r. o_id r = i) (map (\<lambda>r. if o_id r = i then apply_patch p r else r) rows) =
     map (apply_patch p) (filter (\<lambda>r. o_id r = i) rows)"
  by (induction rows) simp_all

lemma filter_key_distinct:
  "distinct (map f xs) \<Longrightarrow> k < length xs \<Longrightarrow> filter (\<lambda>r. f r = f (xs ! k)) xs = [xs ! k]"
proof (induction xs arbitrary: k)
  case Nil
  then show ?case by simp
next
  case (Cons x xs)
  show ?case
  proof (cases k)
    case 0
    have "f x \<notin> f ` set xs"
      using Cons.prems(1) by simp
    then have "\<forall>r\<in>set xs. f r \<noteq> f x"
      by (metis imageI)
    then have "filter (\<lambda>r. f r = f x) xs = []"
      by (simp add: filter_empty_conv)
    with 0 show ?thesis by simp
  next
    case (Suc j)
    with Cons.prems have j: "j < length xs" and d: "distinct (map f xs)" by simp_all
    from j have "f (xs ! j) \<in> f ` set xs" by simp
    with Cons.prems(1) have "f x \<noteq> f (xs ! j)" by auto
    with Suc Cons.IH [OF d j] show ?thesis by simp
  qed
qed

lemma map_patch_distinct:
  assumes "distinct (map f xs)" and "k < length xs"
  shows "map (\<lambda>r. if f r = f (xs ! k) then g r else r) xs = xs[k := g (xs ! k)]"
proof (rule nth_equalityI)
  show "length (map (\<lambda>r. if f r = f (xs ! k) then g r else r) xs) = length (xs[k := g (xs ! k)])"
    by simp
next
  fix j
  assume "j < length (map (\<lambda>r. if f r = f (xs ! k) then g r else r) xs)"
  then have j: "j < length xs" by simp
  have "f (xs ! j) = f (xs ! k) \<longleftrightarrow> j = k"
    using assms j nth_eq_iff_index_eq [of "map f xs" j k] by simp
  with j assms(2)
  show "map (\<lambda>r. if f r = f (xs ! k) then g r else r) xs ! j = xs[k := g (xs ! k)] ! j"
    by (simp add: nth_list_update)
qed

lemma pg_update_order_Inl:
  assumes "fst (pg_update_order p i s) = Inl e"
  shows "tbl_orders (snd (pg_update_order p i s)) = tbl_orders s"
    and "tbl_order_items (snd (pg_update_order p i s)) = tbl_order_items s"
    and "tbl_menu_items (snd (pg_update_order p i s)) = tbl_menu_items s"
  using assms by (auto simp: pg_update_order_eq split: option.splits list.splits)

lemma pg_update_order_unknown:
  assumes "i \<notin> o_id ` set (tbl_orders s)"
  shows "fst (pg_update_order p i s) =
           Inl (case fst (next_fault s) of Some e \<Rightarrow> e | None \<Rightarrow> PGRST116)"
proof -
  have "filter (\<lambda>r. o_id r = i) (tbl_orders s) = []"
    using assms by (auto simp: filter_empty_conv)
  then show ?thesis
    by (simp add: pg_update_order_eq filter_patched split: option.splits)
qed

lemma new_item_row_next_fault [simp]: "new_item_row (snd (next_fault s)) = new_item_row s"
  by (rule ext) (simp add: new_item_row_def split: prod.splits)

lemma pg_insert_order_eq:
  "pg_insert_order d s =
     (case fst (next_fault s) of
        Some e \<Rightarrow> (Inl e, snd (next_fault s))
      | None \<Rightarrow>
          (Inr (orderData.extend d
                  (order_row.fields (gen_random_uuid s (serial s)) (pg_now s) (pg_now s))),
           (snd (next_fault s))
             \<lparr>tbl_orders := tbl_orders s @
                  [orderData.extend d
                     (order_row.fields (gen_random_uuid s (serial s)) (pg_now s) (pg_now s))],
              serial := Suc (serial s)\<rparr>))"
  by (simp add: pg_insert_order_def case_prod_beta Let_def split: option.splits)

lemma pg_insert_order_items_eq:
  "pg_insert_order_items xs s =
     (case fst (next_fault s) of
        Some e \<Rightarrow> (Inl e, snd (next_fault s))
      | None \<Rightarrow>
          (if list_all (\<lambda>x. ins_order_id x \<in> set (map o_id (tbl_orders s))) xs
           then (Inr (),
                 (snd (next_fault s))
                   \<lparr>tbl_order_items :=
                      tbl_order_items s @ map (new_item_row s) (enumerate (serial s) xs),
                    serial := serial s + length xs\<rparr>)
           else (Inl foreign_key_violation, snd (next_fault s))))"
  by (simp add: pg_insert_order_items_def case_prod_beta split: option.splits)

lemma pg_insert_order_Inr:
  assumes "fst (pg_insert_order d s) = Inr r"
  shows "r = orderData.extend d
               (order_row.fields (gen_random_uuid s (serial s)) (pg_now s) (pg_now s))"
    and "tbl_orders (snd (pg_insert_order d s)) = tbl_orders s @ [r]"
    and "tbl_order_items (snd (pg_insert_order d s)) = tbl_order_items s"
    and "tbl_menu_items (snd (pg_insert_order d s)) = tbl_menu_items s"
    and "gen_random_uuid (snd (pg_insert_order d s)) = gen_random_uuid s"
    and "serial (snd (pg_insert_order d s)) = Suc (serial s)"
    and "faults (snd (pg_insert_order d s)) = faults (snd (next_fault s))"
    and "fst (next_fault s) = None"
  using assms by (auto simp: pg_insert_order_eq split: option.splits)

lemma pg_insert_order_ok:
  assumes "fst (next_fault s) = None"
  shows "\<exists>r. fst (pg_insert_order d s) = Inr r"
  using assms by (simp add: pg_insert_order_eq)

lemma pg_insert_order_items_Inr:
  assumes "fst (pg_insert_order_items xs s) = Inr u"
  shows "tbl_order_items (snd (pg_insert_order_items xs s)) =
           tbl_order_items s @ map (new_item_row s) (enumerate (serial s) xs)"
    and "tbl_orders (snd (pg_insert_order_items xs s)) = tbl_orders s"
    and "tbl_menu_items (snd (pg_insert_order_items xs s)) = tbl_menu_items s"
  using assms by (auto simp: pg_insert_order_items_eq split: option.splits if_splits)

lemma pg_insert_order_items_Inl:
  assumes "fst (pg_insert_order_items xs s) = Inl e"
  shows "tbl_order_items (snd (pg_insert_order_items xs s)) = tbl_order_items s"
    and "tbl_orders (snd (pg_insert_order_items xs s)) = tbl_orders s"
    and "tbl_menu_items (snd (pg_insert_order_items xs s)) = tbl_menu_items s"
  using assms by (auto simp: pg_insert_order_items_eq split: option.splits if_splits)

lemma pg_insert_order_items_ok:
  assumes "fst (next_fault s) = None"
    and "\<forall>x\<in>set xs. ins_order_id x \<in> o_id ` set (tbl_orders s)"
  shows "fst (pg_insert_order_items xs s) = Inr ()"
  using assms by (simp add: pg_insert_order_items_eq list_all_iff)

lemma ins_order_id_orderItems: "x \<in> set (orderItems order items) \<Longrightarrow> ins_order_id x = o_id order"
  by (auto simp: orderItems_def)

lemma truncate_new_order [simp]:
  "orderData.truncate (orderData.extend d x) = d"
  by (simp add: orderData.truncate_def orderData.extend_def)

lemma no_faults_after_insert_order:
  assumes "no_faults (Suc n) s"
  shows "no_faults n (snd (pg_insert_order d s))"
proof -
  from no_faults_Suc [OF assms]
  have f: "fst (next_fault s) = None" and n: "no_faults n (snd (next_fault s))" by simp_all
  from f have "faults (snd (pg_insert_order d s)) = faults (snd (next_fault s))"
    by (simp add: pg_insert_order_eq)
  with n show ?thesis by (simp add: no_faults_def)
qed

lemma create_succeeds:
  assumes "no_faults 2 (store w)"
  shows "\<exists>order. fst (useCreateOrder_mutationFn pg_client (d, items) w) = Inr order"
proof -
  let ?s = "store w"
  have two: "(2::nat) = Suc (Suc 0)" by simp
  from assms have n2: "no_faults (Suc (Suc 0)) ?s" by (simp only: two)
  from no_faults_Suc [OF n2] have f: "fst (next_fault ?s) = None" by simp
  from pg_insert_order_ok [OF f] obtain r where r: "fst (pg_insert_order d ?s) = Inr r" ..
  let ?s1 = "snd (pg_insert_order d ?s)"
  from no_faults_after_insert_order [OF n2] have "no_faults (Suc 0) ?s1" .
  from no_faults_Suc [OF this] have f1: "fst (next_fault ?s1) = None" by simp
  have fk: "\<forall>x\<in>set (orderItems r items). ins_order_id x \<in> o_id ` set (tbl_orders ?s1)"
    using pg_insert_order_Inr(2) [OF r] by (simp add: ins_order_id_orderItems)
  have "fst (pg_insert_order_items (orderItems r items) ?s1) = Inr ()"
    by (rule pg_insert_order_items_ok [OF f1 fk])
  with r show ?thesis
    using useCreateOrder_mutationFn_Inr [of pg_client d w r items]
    by (simp add: pg_client_def)
qed

lemma create_Inr_steps:
  assumes "fst (useCreateOrder_mutationFn pg_client (d, items) w) = Inr order"
  shows "fst (pg_insert_order d (store w)) = Inr order"
    and "fst (pg_insert_order_items (orderItems order items)
                (snd (pg_insert_order d (store w)))) = Inr ()"
    and "snd (useCreateOrder_mutationFn pg_client (d, items) w) =
           w\<lparr>store := snd (pg_insert_order_items (orderItems order items)
                              (snd (pg_insert_order d (store w)))),
             sent := sent w @ [Insert_order d, Insert_order_items (orderItems order items)]\<rparr>"
proof -
  have a: "fst (pg_insert_order d (store w)) = Inr order
      \<and> fst (pg_insert_order_items (orderItems order items)
                (snd (pg_insert_order d (store w)))) = Inr ()"
  proof (cases "fst (pg_insert_order d (store w))")
    case (Inl e)
    then show ?thesis
      using assms useCreateOrder_mutationFn_Inl [of pg_client d w e items]
      by (simp add: pg_client_def)
  next
    case (Inr r)
    then show ?thesis
      using assms useCreateOrder_mutationFn_Inr [of pg_client d w r items]
      by (simp add: pg_client_def split: sum.splits)
  qed
  then show "fst (pg_insert_order d (store w)) = Inr order"
    and "fst (pg_insert_order_items (orderItems order items)
                (snd (pg_insert_order d (store w)))) = Inr ()" by simp_all
  from a show "snd (useCreateOrder_mutationFn pg_client (d, items) w) =
           w\<lparr>store := snd (pg_insert_order_items (orderItems order items)
                              (snd (pg_insert_order d (store w)))),
             sent := sent w @ [Insert_order d, Insert_order_items (orderItems order items)]\<rparr>"
    using useCreateOrder_mutationFn_Inr [of pg_client d w order items]
    by (simp add: pg_client_def)
qed

lemma new_item_row_nth:
  assumes "k < length items"
  shows "map (new_item_row s) (enumerate n (orderItems order items)) ! k =
           \<lparr>oi_id = gen_random_uuid s (n + k),
            oi_order_id = o_id order,
            oi_menu_item_id = menu_item_id (items ! k),
            oi_quantity = quantity (items ! k),
            oi_price = price (items ! k),
            oi_selected_options = Some (or_empty (selected_options (items ! k))),
            oi_selected_add_ons = Some (or_empty (selected_add_ons (items ! k)))\<rparr>"
  using assms by (simp add: orderItems_def nth_enumerate_eq new_item_row_def)

subsection \<open>The example data\<close>

lemma example_faults [simp]: "faults (store (example_world fs)) = fs"
  by (simp add: example_world_def example_pg_def)

lemma example_tbl_orders:
  "tbl_orders (store (example_world fs)) =
     [example_order ''o1'' 10, example_order ''o2'' 30, example_order ''o3'' 20]"
  by (simp add: example_world_def example_pg_def)

lemma example_tbl_order_items: "tbl_order_items (store (example_world fs)) = [example_item]"
  by (simp add: example_world_def example_pg_def)

lemma example_order_sel [simp]:
  "o_id (example_order i t) = i" "created_at (example_order i t) = t"
  by (simp_all add: example_order_def orderData.extend_def order_row.fields_def)

lemma example_frame [simp]:
  "sent (example_world fs) = []" "toasts (example_world fs) = []"
  "date_now (example_world fs) = 50"
  by (simp_all add: example_world_def)

lemma example_no_faults [simp]: "no_faults n (store (example_world []))"
  by (simp add: no_faults_def)

section \<open>The claims\<close>

text \<open>
  C1. With no parameter, the list-orders query returns every row of \<^verbatim>\<open>orders\<close> (the rows
  returned are, as a multiset, the rows of the table), newest first by \<^verbatim>\<open>created_at\<close> whatever
  the order of the table, each with the rows of \<^verbatim>\<open>order_items\<close> that reference it nested in it,
  and each of those with the name and description of its menu item. This is the run in
  which the store answers the request.
\<close>

theorem useOrders_returns_all_orders_newest_first:
  assumes "no_faults 1 (store w)"
  shows "\<exists>rows. fst (useOrders_queryFn pg_client w) = Inr rows
      \<and> sorted_wrt (\<lambda>a b. created_at b \<le> created_at a) rows
      \<and> mset (map order_row.truncate rows) = mset (tbl_orders (store w))
      \<and> (\<forall>r\<in>set rows.
            map order_item_row.truncate (order_items r) =
              filter (\<lambda>i. oi_order_id i = o_id r) (tbl_order_items (store w))
            \<and> (\<forall>i\<in>set (order_items r).
                  menu_items i =
                    map_option (\<lambda>m. \<lparr>menu_name = m_name m, menu_description = m_description m\<rparr>)
                      (find (\<lambda>m. m_id m = oi_menu_item_id i) (tbl_menu_items (store w)))))"
proof -
  let ?s = "store w"
  let ?rows = "map (embed_order_items ?s) (order_by_created_at False (tbl_orders ?s))"
  from assms have nf: "fst (next_fault ?s) = None"
    using no_faults_Suc [of 0 ?s] by simp
  have res: "fst (useOrders_queryFn pg_client w) = Inr ?rows"
    using pg_select_orders_ok [OF nf, of False]
    by (simp add: useOrders_queryFn_eq await_select_orders_eq pg_client_def)
  have srt: "sorted_wrt (\<lambda>a b. created_at b \<le> created_at a) ?rows"
    using sorted_order_by_created_at_desc [of "tbl_orders ?s"]
    by (simp add: sorted_wrt_map)
  have all: "mset (map order_row.truncate ?rows) = mset (tbl_orders ?s)"
    by (simp add: o_def mset_order_by_created_at)
  have nest: "\<forall>r\<in>set ?rows.
            map order_item_row.truncate (order_items r) =
              filter (\<lambda>i. oi_order_id i = o_id r) (tbl_order_items ?s)
            \<and> (\<forall>i\<in>set (order_items r).
                  menu_items i =
                    map_option (\<lambda>m. \<lparr>menu_name = m_name m, menu_description = m_description m\<rparr>)
                      (find (\<lambda>m. m_id m = oi_menu_item_id i) (tbl_menu_items ?s)))"
    by (auto simp: order_items_embed_order_items o_def menu_items_embed_menu_items)
  from res srt all nest show ?thesis by blast
qed

theorem useOrders_returns_all_orders_newest_first_witness:
  "no_faults 1 (store (example_world []))
   \<and> (\<exists>rows. fst (useOrders_queryFn pg_client (example_world [])) = Inr rows
        \<and> sorted_wrt (\<lambda>a b. created_at b \<le> created_at a) rows
        \<and> map created_at rows = [30, 20, 10]
        \<and> map o_id rows = [''o2'', ''o3'', ''o1''])"
proof -
  let ?w = "example_world []"
  have h: "no_faults 1 (store ?w)" by simp
  from useOrders_returns_all_orders_newest_first [OF h] obtain rows where
    r: "fst (useOrders_queryFn pg_client ?w) = Inr rows" and
    s: "sorted_wrt (\<lambda>a b. created_at b \<le> created_at a) rows"
    by blast
  have "fst (useOrders_queryFn pg_client ?w) =
          Inr (map (embed_order_items (store ?w))
                 (order_by_created_at False (tbl_orders (store ?w))))"
    by (simp add: useOrders_queryFn_eq await_select_orders_eq pg_client_def
        pg_select_orders_eq next_fault_def)
  with r have e: "rows = map (embed_order_items (store ?w))
                          (order_by_created_at False (tbl_orders (store ?w)))"
    by simp
  have "map created_at rows = [30, 20, 10]" "map o_id rows = [''o2'', ''o3'', ''o1'']"
    by (simp_all add: e o_def example_tbl_orders order_by_created_at_def)
  with h r s show ?thesis by auto
qed

text \<open>
  C2. Update-status for the id of an existing order (by the primary key there is exactly one
  such row, at index \<open>k\<close>) and any of the five status values: the row is returned with
  its status set to the given value and \<^verbatim>\<open>updated_at\<close> set to the client's current time, the
  table differs from the old one in that row only, and the other tables are untouched.
  This is the run in which the store answers the request.
\<close>

theorem useUpdateOrderStatus_updates_the_matching_row:
  assumes nf: "no_faults 1 (store w)"
    and pk: "distinct (map o_id (tbl_orders (store w)))"
    and k: "k < length (tbl_orders (store w))"
    and i: "o_id (tbl_orders (store w) ! k) = i"
  shows "fst (useUpdateOrderStatus_mutationFn pg_client (i, st) w) =
           Inr ((tbl_orders (store w) ! k)\<lparr>status := st, updated_at := date_now w\<rparr>)
       \<and> tbl_orders (store (snd (useUpdateOrderStatus_mutationFn pg_client (i, st) w))) =
           (tbl_orders (store w))
             [k := (tbl_orders (store w) ! k)\<lparr>status := st, updated_at := date_now w\<rparr>]
       \<and> (\<forall>j<length (tbl_orders (store w)). o_id (tbl_orders (store w) ! j) = i \<longrightarrow> j = k)
       \<and> tbl_order_items (store (snd (useUpdateOrderStatus_mutationFn pg_client (i, st) w))) =
           tbl_order_items (store w)
       \<and> tbl_menu_items (store (snd (useUpdateOrderStatus_mutationFn pg_client (i, st) w))) =
           tbl_menu_items (store w)"
proof -
  let ?s = "store w"
  let ?rows = "tbl_orders ?s"
  let ?p = "\<lparr>patch_status = st, patch_updated_at = date_now w\<rparr>"
  from nf have f: "fst (next_fault ?s) = None"
    using no_faults_Suc [of 0 ?s] by simp
  have ap: "apply_patch ?p (?rows ! k) = (?rows ! k)\<lparr>status := st, updated_at := date_now w\<rparr>"
    by (simp add: apply_patch_def)
  have flt: "filter (\<lambda>r. o_id r = i)
               (map (\<lambda>r. if o_id r = i then apply_patch ?p r else r) ?rows) =
             [apply_patch ?p (?rows ! k)]"
    using filter_key_distinct [OF pk k] i by (simp add: filter_patched)
  have upd: "map (\<lambda>r. if o_id r = i then apply_patch ?p r else r) ?rows =
             ?rows[k := apply_patch ?p (?rows ! k)]"
    using map_patch_distinct [OF pk k, of "apply_patch ?p"] i by simp
  have run: "pg_update_order ?p i ?s =
               (Inr (apply_patch ?p (?rows ! k)),
                (snd (next_fault ?s))\<lparr>tbl_orders := ?rows[k := apply_patch ?p (?rows ! k)]\<rparr>)"
    using f flt upd by (simp add: pg_update_order_eq)
  have uniq: "\<forall>j<length ?rows. o_id (?rows ! j) = i \<longrightarrow> j = k"
    using pk k i nth_eq_iff_index_eq [of "map o_id ?rows" _ k] by auto
  from run uniq show ?thesis
    by (simp add: useUpdateOrderStatus_mutationFn_eq await_update_order_eq pg_client_def ap)
qed

theorem useUpdateOrderStatus_updates_the_matching_row_witness:
  "no_faults 1 (store (example_world []))
   \<and> distinct (map o_id (tbl_orders (store (example_world []))))
   \<and> (1::nat) < length (tbl_orders (store (example_world [])))
   \<and> o_id (tbl_orders (store (example_world [])) ! 1) = ''o2''
   \<and> fst (useUpdateOrderStatus_mutationFn pg_client (''o2'', Preparing) (example_world [])) =
       Inr ((example_order ''o2'' 30)\<lparr>status := Preparing, updated_at := 50\<rparr>)
   \<and> tbl_orders (store (snd (useUpdateOrderStatus_mutationFn pg_client (''o2'', Preparing)
                               (example_world [])))) =
       [example_order ''o1'' 10,
        (example_order ''o2'' 30)\<lparr>status := Preparing, updated_at := 50\<rparr>,
        example_order ''o3'' 20]"
proof -
  let ?w = "example_world []"
  have h1: "no_faults 1 (store ?w)" by simp
  have h2: "distinct (map o_id (tbl_orders (store ?w)))"
    by (simp add: example_tbl_orders)
  have h3: "(1::nat) < length (tbl_orders (store ?w))"
    by (simp add: example_tbl_orders)
  have h4: "o_id (tbl_orders (store ?w) ! 1) = ''o2''"
    by (simp add: example_tbl_orders)
  from useUpdateOrderStatus_updates_the_matching_row [OF h1 h2 h3 h4, of Preparing] h1 h2 h3 h4
  show ?thesis by (simp add: example_tbl_orders)
qed

text \<open>
  C3. Create-order succeeds when the store answers both requests; and whenever it succeeds
  with \<open>order\<close>, that row carries the payload, it is the one row added to \<^verbatim>\<open>orders\<close>, and
  exactly one row per input item is added to \<^verbatim>\<open>order_items\<close>, in order, each referencing
  the id of \<open>order\<close>, with an absent option mapping replaced by the empty object. The
  value returned is the order row, which has no nested items.
\<close>

theorem useCreateOrder_inserts_one_row_per_item:
  "(no_faults 2 (store w) \<longrightarrow>
      (\<exists>r. fst (useCreateOrder_mutationFn pg_client (d, items) w) = Inr r))
   \<and> (fst (useCreateOrder_mutationFn pg_client (d, items) w) = Inr order \<longrightarrow>
        orderData.truncate order = d
      \<and> tbl_orders (store (snd (useCreateOrder_mutationFn pg_client (d, items) w))) =
          tbl_orders (store w) @ [order]
      \<and> (\<exists>new.
            tbl_order_items (store (snd (useCreateOrder_mutationFn pg_client (d, items) w))) =
              tbl_order_items (store w) @ new
          \<and> length new = length items
          \<and> (\<forall>k<length items.
                oi_order_id (new ! k) = o_id order
              \<and> oi_menu_item_id (new ! k) = menu_item_id (items ! k)
              \<and> oi_quantity (new ! k) = quantity (items ! k)
              \<and> oi_price (new ! k) = price (items ! k)
              \<and> oi_selected_options (new ! k) =
                  Some (case selected_options (items ! k) of None \<Rightarrow> [] | Some m \<Rightarrow> m)
              \<and> oi_selected_add_ons (new ! k) =
                  Some (case selected_add_ons (items ! k) of None \<Rightarrow> [] | Some m \<Rightarrow> m))))"
proof (intro conjI impI)
  assume "no_faults 2 (store w)"
  then show "\<exists>r. fst (useCreateOrder_mutationFn pg_client (d, items) w) = Inr r"
    by (rule create_succeeds)
next
  assume ok: "fst (useCreateOrder_mutationFn pg_client (d, items) w) = Inr order"
  let ?s = "store w"
  let ?s1 = "snd (pg_insert_order d ?s)"
  let ?new = "map (new_item_row ?s1) (enumerate (serial ?s1) (orderItems order items))"
  note st = create_Inr_steps [OF ok]
  note o = pg_insert_order_Inr [OF st(1)]
  note i = pg_insert_order_items_Inr [OF st(2)]
  from o(1) show "orderData.truncate order = d" by simp
  show "tbl_orders (store (snd (useCreateOrder_mutationFn pg_client (d, items) w))) =
          tbl_orders ?s @ [order]"
    by (simp add: st(3) i(2) o(2))
  have t: "tbl_order_items (store (snd (useCreateOrder_mutationFn pg_client (d, items) w))) =
             tbl_order_items ?s @ ?new"
    by (simp add: st(3) i(1) o(3))
  have l: "length ?new = length items"
    by (simp add: orderItems_def)
  have n: "\<forall>k<length items.
                oi_order_id (?new ! k) = o_id order
              \<and> oi_menu_item_id (?new ! k) = menu_item_id (items ! k)
              \<and> oi_quantity (?new ! k) = quantity (items ! k)
              \<and> oi_price (?new ! k) = price (items ! k)
              \<and> oi_selected_options (?new ! k) =
                  Some (case selected_options (items ! k) of None \<Rightarrow> [] | Some m \<Rightarrow> m)
              \<and> oi_selected_add_ons (?new ! k) =
                  Some (case selected_add_ons (items ! k) of None \<Rightarrow> [] | Some m \<Rightarrow> m)"
    by (simp add: new_item_row_nth or_empty_def)
  from t l n show "\<exists>new.
            tbl_order_items (store (snd (useCreateOrder_mutationFn pg_client (d, items) w))) =
              tbl_order_items ?s @ new
          \<and> length new = length items
          \<and> (\<forall>k<length items.
                oi_order_id (new ! k) = o_id order
              \<and> oi_menu_item_id (new ! k) = menu_item_id (items ! k)
              \<and> oi_quantity (new ! k) = quantity (items ! k)
              \<and> oi_price (new ! k) = price (items ! k)
              \<and> oi_selected_options (new ! k) =
                  Some (case selected_options (items ! k) of None \<Rightarrow> [] | Some m \<Rightarrow> m)
              \<and> oi_selected_add_ons (new ! k) =
                  Some (case selected_add_ons (items ! k) of None \<Rightarrow> [] | Some m \<Rightarrow> m))"
    by blast
qed

theorem useCreateOrder_inserts_one_row_per_item_witness:
  "no_faults 2 (store (example_world []))
   \<and> fst (useCreateOrder_mutationFn pg_client (example_orderData, example_items)
           (example_world [])) =
       Inr (orderData.extend example_orderData (order_row.fields ''u'' 40 40))
   \<and> tbl_order_items (store (snd (useCreateOrder_mutationFn pg_client
        (example_orderData, example_items) (example_world [])))) =
       [example_item,
        \<lparr>oi_id = ''uu'', oi_order_id = ''u'', oi_menu_item_id = ''m1'', oi_quantity = 2,
         oi_price = 3, oi_selected_options = Some [],
         oi_selected_add_ons = Some [(''milk'', JBool True)]\<rparr>,
        \<lparr>oi_id = ''uuu'', oi_order_id = ''u'', oi_menu_item_id = ''m1'', oi_quantity = 1,
         oi_price = 5, oi_selected_options = Some [], oi_selected_add_ons = Some []\<rparr>]"
proof -
  let ?w = "example_world []"
  let ?r = "orderData.extend example_orderData (order_row.fields ''u'' 40 40)"
  have h: "no_faults 2 (store ?w)" by simp
  have o: "fst (insert_order pg_client example_orderData (store ?w)) = Inr ?r"
    by (simp add: pg_client_def pg_insert_order_eq next_fault_def example_world_def
        example_pg_def)
  have run: "useCreateOrder_mutationFn pg_client (example_orderData, example_items) ?w =
     (Inr ?r,
      ?w\<lparr>store := snd (insert_order_items pg_client (orderItems ?r example_items)
                         (snd (insert_order pg_client example_orderData (store ?w)))),
         sent := [Insert_order example_orderData,
                  Insert_order_items (orderItems ?r example_items)]\<rparr>)"
    by (simp add: useCreateOrder_mutationFn_Inr [OF o])
       (simp add: pg_client_def pg_insert_order_eq pg_insert_order_items_eq next_fault_def
        orderItems_def orderData.extend_def order_row.fields_def example_items_def
        example_world_def example_pg_def)
  have ok: "fst (useCreateOrder_mutationFn pg_client (example_orderData, example_items) ?w) =
              Inr ?r"
    by (simp add: run)
  have tbl: "tbl_order_items (store (snd (useCreateOrder_mutationFn pg_client
        (example_orderData, example_items) ?w))) =
       [example_item,
        \<lparr>oi_id = ''uu'', oi_order_id = ''u'', oi_menu_item_id = ''m1'', oi_quantity = 2,
         oi_price = 3, oi_selected_options = Some [],
         oi_selected_add_ons = Some [(''milk'', JBool True)]\<rparr>,
        \<lparr>oi_id = ''uuu'', oi_order_id = ''u'', oi_menu_item_id = ''m1'', oi_quantity = 1,
         oi_price = 5, oi_selected_options = Some [], oi_selected_add_ons = Some []\<rparr>]"
    by (simp add: run)
       (simp add: pg_client_def pg_insert_order_eq pg_insert_order_items_eq next_fault_def
        orderItems_def orderData.extend_def order_row.fields_def new_item_row_def
        or_empty_def example_items_def example_world_def example_pg_def eval_nat_numeral)
  from useCreateOrder_inserts_one_row_per_item [of ?w example_orderData example_items ?r] h ok tbl
  show ?thesis by simp
qed

text \<open>
  C4. In every run of create-order the first request sent is the order insert, and an item
  insert is sent only after it, when it has answered with a row. When the order insert
  fails with \<open>e\<close>, the run ends with \<open>e\<close> and the order insert is the only request sent:
  the store is left as that one request left it. This holds for every client.
\<close>

theorem useCreateOrder_order_insert_first:
  "(sent (snd (useCreateOrder_mutationFn sb (d, items) w)) = sent w @ [Insert_order d]
    \<or> (\<exists>order. fst (insert_order sb d (store w)) = Inr order
          \<and> sent (snd (useCreateOrder_mutationFn sb (d, items) w)) =
              sent w @ [Insert_order d, Insert_order_items (orderItems order items)]))
   \<and> (fst (insert_order sb d (store w)) = Inl e \<longrightarrow>
        useCreateOrder_mutationFn sb (d, items) w =
          (Inl e, w\<lparr>store := snd (insert_order sb d (store w)),
                    sent := sent w @ [Insert_order d]\<rparr>))"
proof (cases "fst (insert_order sb d (store w))")
  case (Inl a)
  then show ?thesis by (simp add: useCreateOrder_mutationFn_Inl)
next
  case (Inr b)
  then show ?thesis by (simp add: useCreateOrder_mutationFn_Inr)
qed

theorem useCreateOrder_order_insert_first_witness:
  "fst (insert_order pg_client example_orderData (store (example_world [Some network_error]))) =
     Inl network_error
   \<and> fst (useCreateOrder_mutationFn pg_client (example_orderData, example_items)
           (example_world [Some network_error])) = Inl network_error
   \<and> sent (snd (useCreateOrder_mutationFn pg_client (example_orderData, example_items)
                 (example_world [Some network_error]))) = [Insert_order example_orderData]
   \<and> tbl_order_items (store (snd (useCreateOrder_mutationFn pg_client
        (example_orderData, example_items) (example_world [Some network_error])))) =
       [example_item]"
proof -
  let ?w = "example_world [Some network_error]"
  have h: "fst (insert_order pg_client example_orderData (store ?w)) = Inl network_error"
    by (simp add: pg_client_def pg_insert_order_eq next_fault_def)
  have t: "tbl_order_items (snd (insert_order pg_client example_orderData (store ?w))) =
             [example_item]"
    by (simp add: pg_client_def pg_insert_order_eq next_fault_def example_tbl_order_items)
  from useCreateOrder_order_insert_first [of pg_client example_orderData example_items ?w network_error] h t
  show ?thesis by simp
qed

text \<open>
  C5. When the order insert has answered with \<open>order\<close> and the item insert fails with
  \<open>e\<close>: create-order fails with \<open>e\<close>, the row \<open>order\<close> stays in \<^verbatim>\<open>orders\<close>, no item row is
  written, the two inserts are the only requests sent (nothing deletes the order), and the
  notification is the one an order-insert failure with the same error gives.
\<close>

theorem useCreateOrder_items_failure_keeps_order:
  assumes o: "fst (pg_insert_order d (store w)) = Inr order"
    and f: "fst (pg_insert_order_items (orderItems order items)
                   (snd (pg_insert_order d (store w)))) = Inl e"
  shows "fst (useCreateOrder pg_client (d, items) w) = Inl e
      \<and> tbl_orders (store (snd (useCreateOrder pg_client (d, items) w))) =
          tbl_orders (store w) @ [order]
      \<and> tbl_order_items (store (snd (useCreateOrder pg_client (d, items) w))) =
          tbl_order_items (store w)
      \<and> sent (snd (useCreateOrder pg_client (d, items) w)) =
          sent w @ [Insert_order d, Insert_order_items (orderItems order items)]
      \<and> toasts (snd (useCreateOrder pg_client (d, items) w)) =
          toasts w @ [\<lparr>title = ''Error'',
                       description = ''Failed to create order: '' @ message e,
                       variant = Some Destructive\<rparr>]
      \<and> (fst (pg_insert_order d (store v)) = Inl e \<longrightarrow>
           fst (useCreateOrder pg_client (d, items) v) = Inl e
         \<and> toasts (snd (useCreateOrder pg_client (d, items) v)) =
             toasts v @ [\<lparr>title = ''Error'',
                          description = ''Failed to create order: '' @ message e,
                          variant = Some Destructive\<rparr>])"
proof -
  let ?s1 = "snd (pg_insert_order d (store w))"
  let ?s2 = "snd (pg_insert_order_items (orderItems order items) ?s1)"
  have m: "useCreateOrder_mutationFn pg_client (d, items) w =
             (Inl e, w\<lparr>store := ?s2,
                       sent := sent w @ [Insert_order d,
                                         Insert_order_items (orderItems order items)]\<rparr>)"
    using o f useCreateOrder_mutationFn_Inr [of pg_client d w order items]
    by (simp add: pg_client_def)
  have u: "useCreateOrder pg_client (d, items) w =
             (Inl e, useCreateOrder_onError e
                       (w\<lparr>store := ?s2,
                          sent := sent w @ [Insert_order d,
                                            Insert_order_items (orderItems order items)]\<rparr>))"
    by (simp add: useCreateOrder_def useMutation_def m)
  note a = pg_insert_order_Inr [OF o]
  note b = pg_insert_order_items_Inl [OF f]
  have first: "fst (pg_insert_order d (store v)) = Inl e \<longrightarrow>
           fst (useCreateOrder pg_client (d, items) v) = Inl e
         \<and> toasts (snd (useCreateOrder pg_client (d, items) v)) =
             toasts v @ [\<lparr>title = ''Error'',
                          description = ''Failed to create order: '' @ message e,
                          variant = Some Destructive\<rparr>]"
  proof
    assume "fst (pg_insert_order d (store v)) = Inl e"
    then have "useCreateOrder_mutationFn pg_client (d, items) v =
                 (Inl e, v\<lparr>store := snd (pg_insert_order d (store v)),
                           sent := sent v @ [Insert_order d]\<rparr>)"
      using useCreateOrder_mutationFn_Inl [of pg_client d v e items]
      by (simp add: pg_client_def)
    then show "fst (useCreateOrder pg_client (d, items) v) = Inl e
         \<and> toasts (snd (useCreateOrder pg_client (d, items) v)) =
             toasts v @ [\<lparr>title = ''Error'',
                          description = ''Failed to create order: '' @ message e,
                          variant = Some Destructive\<rparr>]"
      by (simp add: useCreateOrder_def useMutation_def useCreateOrder_onError_def toast_def)
  qed
  show ?thesis
    using first a(2,3) b(1,2)
    by (simp add: u useCreateOrder_onError_def toast_def)
qed

theorem useCreateOrder_items_failure_keeps_order_witness:
  "fst (pg_insert_order example_orderData (store (example_world [None, Some network_error]))) =
     Inr (orderData.extend example_orderData (order_row.fields ''u'' 40 40))
   \<and> fst (pg_insert_order_items
           (orderItems (orderData.extend example_orderData (order_row.fields ''u'' 40 40))
              example_items)
           (snd (pg_insert_order example_orderData
                   (store (example_world [None, Some network_error]))))) = Inl network_error
   \<and> fst (pg_insert_order example_orderData (store (example_world [Some network_error]))) =
       Inl network_error
   \<and> fst (useCreateOrder pg_client (example_orderData, example_items)
           (example_world [None, Some network_error])) = Inl network_error
   \<and> tbl_orders (store (snd (useCreateOrder pg_client (example_orderData, example_items)
                               (example_world [None, Some network_error])))) =
       [example_order ''o1'' 10, example_order ''o2'' 30, example_order ''o3'' 20,
        orderData.extend example_orderData (order_row.fields ''u'' 40 40)]
   \<and> tbl_order_items (store (snd (useCreateOrder pg_client (example_orderData, example_items)
                                    (example_world [None, Some network_error])))) =
       [example_item]
   \<and> toasts (snd (useCreateOrder pg_client (example_orderData, example_items)
                    (example_world [None, Some network_error]))) =
       toasts (snd (useCreateOrder pg_client (example_orderData, example_items)
                      (example_world [Some network_error])))"
proof -
  let ?w = "example_world [None, Some network_error]"
  let ?v = "example_world [Some network_error]"
  let ?r = "orderData.extend example_orderData (order_row.fields ''u'' 40 40)"
  have o: "fst (pg_insert_order example_orderData (store ?w)) = Inr ?r"
    by (simp add: pg_insert_order_eq next_fault_def example_world_def example_pg_def)
  have f: "fst (pg_insert_order_items (orderItems ?r example_items)
                  (snd (pg_insert_order example_orderData (store ?w)))) = Inl network_error"
    by (simp add: pg_insert_order_eq pg_insert_order_items_eq next_fault_def)
  have g: "fst (pg_insert_order example_orderData (store ?v)) = Inl network_error"
    by (simp add: pg_insert_order_eq next_fault_def)
  from useCreateOrder_items_failure_keeps_order [OF o f, of ?v] o f g show ?thesis
    by (simp add: example_tbl_orders example_tbl_order_items)
qed

text \<open>
  C6. Whenever update-status or create-order fails with \<open>e\<close>, the query cache is what it
  was, and one notification is added: titled Error, destructive, its description the
  hook's prefix followed by the message of \<open>e\<close>. This holds for every client.
\<close>

theorem mutation_failure_keeps_cache:
  "(fst (useUpdateOrderStatus sb v w) = Inl e \<longrightarrow>
      queryCache (snd (useUpdateOrderStatus sb v w)) = queryCache w
      \<and> toasts (snd (useUpdateOrderStatus sb v w)) =
          toasts w @ [\<lparr>title = ''Error'',
                       description = ''Failed to update order status: '' @ message e,
                       variant = Some Destructive\<rparr>])
   \<and> (fst (useCreateOrder sb v' w') = Inl e' \<longrightarrow>
      queryCache (snd (useCreateOrder sb v' w')) = queryCache w'
      \<and> toasts (snd (useCreateOrder sb v' w')) =
          toasts w' @ [\<lparr>title = ''Error'',
                       description = ''Failed to create order: '' @ message e',
                       variant = Some Destructive\<rparr>])"
proof (intro conjI impI)
  assume a: "fst (useUpdateOrderStatus sb v w) = Inl e"
  note u = useMutation_Inl [OF a [unfolded useUpdateOrderStatus_def]]
  show "queryCache (snd (useUpdateOrderStatus sb v w)) = queryCache w"
    using u by (simp add: useUpdateOrderStatus_def useUpdateOrderStatus_onError_def
        toast_def mutationFn_frame_update)
  show "toasts (snd (useUpdateOrderStatus sb v w)) =
          toasts w @ [\<lparr>title = ''Error'',
                       description = ''Failed to update order status: '' @ message e,
                       variant = Some Destructive\<rparr>]"
    using u by (simp add: useUpdateOrderStatus_def useUpdateOrderStatus_onError_def
        toast_def mutationFn_frame_update)
next
  assume a: "fst (useCreateOrder sb v' w') = Inl e'"
  note u = useMutation_Inl [OF a [unfolded useCreateOrder_def]]
  show "queryCache (snd (useCreateOrder sb v' w')) = queryCache w'"
    using u by (simp add: useCreateOrder_def useCreateOrder_onError_def
        toast_def mutationFn_frame_create)
  show "toasts (snd (useCreateOrder sb v' w')) =
          toasts w' @ [\<lparr>title = ''Error'',
                       description = ''Failed to create order: '' @ message e',
                       variant = Some Destructive\<rparr>]"
    using u by (simp add: useCreateOrder_def useCreateOrder_onError_def
        toast_def mutationFn_frame_create)
qed

theorem mutation_failure_keeps_cache_witness:
  "fst (useUpdateOrderStatus pg_client (''o2'', Ready) (example_world [Some network_error])) =
     Inl network_error
   \<and> queryCache (snd (useUpdateOrderStatus pg_client (''o2'', Ready)
                        (example_world [Some network_error]))) =
       queryCache (example_world [Some network_error])
   \<and> toasts (snd (useUpdateOrderStatus pg_client (''o2'', Ready)
                    (example_world [Some network_error]))) =
       [\<lparr>title = ''Error'', description = ''Failed to update order status: Failed to fetch'',
         variant = Some Destructive\<rparr>]
   \<and> fst (useCreateOrder pg_client (example_orderData, example_items)
           (example_world [None, Some network_error])) = Inl network_error
   \<and> queryCache (snd (useCreateOrder pg_client (example_orderData, example_items)
                        (example_world [None, Some network_error]))) =
       queryCache (example_world [None, Some network_error])
   \<and> toasts (snd (useCreateOrder pg_client (example_orderData, example_items)
                    (example_world [None, Some network_error]))) =
       [\<lparr>title = ''Error'', description = ''Failed to create order: Failed to fetch'',
         variant = Some Destructive\<rparr>]"
proof -
  let ?w = "example_world [Some network_error]"
  let ?w' = "example_world [None, Some network_error]"
  have a: "fst (useUpdateOrderStatus pg_client (''o2'', Ready) ?w) = Inl network_error"
    by (simp add: useUpdateOrderStatus_def useMutation_eq useUpdateOrderStatus_mutationFn_eq
        await_update_order_eq pg_client_def pg_update_order_eq next_fault_def)
  have o: "fst (insert_order pg_client example_orderData (store ?w')) =
             Inr (orderData.extend example_orderData (order_row.fields ''u'' 40 40))"
    by (simp add: pg_client_def pg_insert_order_eq next_fault_def example_world_def
        example_pg_def)
  have b: "fst (useCreateOrder pg_client (example_orderData, example_items) ?w') =
             Inl network_error"
    by (simp add: useCreateOrder_def useMutation_eq useCreateOrder_mutationFn_Inr [OF o])
       (simp add: pg_client_def pg_insert_order_eq pg_insert_order_items_eq next_fault_def)
  have m: "message network_error = ''Failed to fetch''"
    by (simp add: network_error_def)
  from mutation_failure_keeps_cache [of pg_client "(''o2'', Ready)" ?w network_error
      "(example_orderData, example_items)" ?w' network_error] a b m
  show ?thesis by simp
qed

text \<open>
  C7. Whenever update-status or create-order succeeds, the cache entry of the list query (key
  \<^verbatim>\<open>['orders']\<close>) is marked invalidated and the hook's success notification is added. This
  holds for every client.
\<close>

theorem mutation_success_invalidates_orders:
  "(fst (useUpdateOrderStatus sb v w) = Inr d \<longrightarrow>
      queryCache (snd (useUpdateOrderStatus sb v w)) useOrders_queryKey =
        map_option (\<lambda>q. q\<lparr>isInvalidated := True\<rparr>) (queryCache w useOrders_queryKey)
      \<and> toasts (snd (useUpdateOrderStatus sb v w)) =
          toasts w @ [\<lparr>title = ''Order status updated'',
                       description = ''The order status has been updated successfully.'',
                       variant = None\<rparr>])
   \<and> (fst (useCreateOrder sb v' w') = Inr d' \<longrightarrow>
      queryCache (snd (useCreateOrder sb v' w')) useOrders_queryKey =
        map_option (\<lambda>q. q\<lparr>isInvalidated := True\<rparr>) (queryCache w' useOrders_queryKey)
      \<and> toasts (snd (useCreateOrder sb v' w')) =
          toasts w' @ [\<lparr>title = ''Order created'',
                       description = ''Your order has been placed successfully.'',
                       variant = None\<rparr>])"
proof (intro conjI impI)
  assume a: "fst (useUpdateOrderStatus sb v w) = Inr d"
  note u = useMutation_Inr [OF a [unfolded useUpdateOrderStatus_def]]
  show "queryCache (snd (useUpdateOrderStatus sb v w)) useOrders_queryKey =
        map_option (\<lambda>q. q\<lparr>isInvalidated := True\<rparr>) (queryCache w useOrders_queryKey)"
    using u by (simp add: useUpdateOrderStatus_def useUpdateOrderStatus_onSuccess_def
        toast_def invalidateQueries_def useOrders_queryKey_def mutationFn_frame_update)
  show "toasts (snd (useUpdateOrderStatus sb v w)) =
          toasts w @ [\<lparr>title = ''Order status updated'',
                       description = ''The order status has been updated successfully.'',
                       variant = None\<rparr>]"
    using u by (simp add: useUpdateOrderStatus_def useUpdateOrderStatus_onSuccess_def
        toast_def invalidateQueries_def mutationFn_frame_update)
next
  assume a: "fst (useCreateOrder sb v' w') = Inr d'"
  note u = useMutation_Inr [OF a [unfolded useCreateOrder_def]]
  show "queryCache (snd (useCreateOrder sb v' w')) useOrders_queryKey =
        map_option (\<lambda>q. q\<lparr>isInvalidated := True\<rparr>) (queryCache w' useOrders_queryKey)"
    using u by (simp add: useCreateOrder_def useCreateOrder_onSuccess_def
        toast_def invalidateQueries_def useOrders_queryKey_def mutationFn_frame_create)
  show "toasts (snd (useCreateOrder sb v' w')) =
          toasts w' @ [\<lparr>title = ''Order created'',
                       description = ''Your order has been placed successfully.'',
                       variant = None\<rparr>]"
    using u by (simp add: useCreateOrder_def useCreateOrder_onSuccess_def
        toast_def invalidateQueries_def mutationFn_frame_create)
qed

theorem mutation_success_invalidates_orders_witness:
  "fst (useUpdateOrderStatus pg_client (''o2'', Ready) (example_world [])) =
     Inr ((example_order ''o2'' 30)\<lparr>status := Ready, updated_at := 50\<rparr>)
   \<and> queryCache (snd (useUpdateOrderStatus pg_client (''o2'', Ready) (example_world [])))
       useOrders_queryKey = Some \<lparr>cached = Some [], isInvalidated = True\<rparr>
   \<and> toasts (snd (useUpdateOrderStatus pg_client (''o2'', Ready) (example_world []))) =
       [\<lparr>title = ''Order status updated'',
         description = ''The order status has been updated successfully.'', variant = None\<rparr>]
   \<and> (\<exists>r. fst (useCreateOrder pg_client (example_orderData, example_items)
                 (example_world [])) = Inr r)
   \<and> queryCache (snd (useCreateOrder pg_client (example_orderData, example_items)
                        (example_world [])))
       useOrders_queryKey = Some \<lparr>cached = Some [], isInvalidated = True\<rparr>
   \<and> toasts (snd (useCreateOrder pg_client (example_orderData, example_items)
                    (example_world []))) =
       [\<lparr>title = ''Order created'',
         description = ''Your order has been placed successfully.'', variant = None\<rparr>]"
proof -
  let ?w = "example_world []"
  have a: "fst (useUpdateOrderStatus pg_client (''o2'', Ready) ?w) =
             Inr ((example_order ''o2'' 30)\<lparr>status := Ready, updated_at := 50\<rparr>)"
    by (simp add: useUpdateOrderStatus_def useMutation_eq useUpdateOrderStatus_mutationFn_eq
        await_update_order_eq pg_client_def pg_update_order_eq next_fault_def
        example_tbl_orders apply_patch_def)
  from create_succeeds [of ?w example_orderData example_items]
  obtain r where "fst (useCreateOrder_mutationFn pg_client (example_orderData, example_items) ?w)
                    = Inr r"
    by auto
  then have b: "fst (useCreateOrder pg_client (example_orderData, example_items) ?w) = Inr r"
    by (simp add: useCreateOrder_def useMutation_eq)
  have c: "queryCache ?w useOrders_queryKey = Some \<lparr>cached = Some [], isInvalidated = False\<rparr>"
    by (simp add: example_world_def useOrders_queryKey_def)
  from mutation_success_invalidates_orders [of pg_client "(''o2'', Ready)" ?w _ "(example_orderData, example_items)" ?w r] a b c
  show ?thesis by auto
qed

text \<open>
  C8. When the fetch of the list-orders query fails with \<open>e\<close>, the query function throws
  this very \<open>e\<close>, whatever it is; nothing but the request has happened. This holds for every
  client.
\<close>

theorem useOrders_propagates_error:
  "fst (select_orders sb False (store w)) = Inl e \<Longrightarrow>
   useOrders_queryFn sb w =
     (Inl e, w\<lparr>store := snd (select_orders sb False (store w)),
               sent := sent w @ [Select_orders False]\<rparr>)"
  by (simp add: useOrders_queryFn_eq await_select_orders_eq)

theorem useOrders_propagates_error_witness:
  "fst (select_orders pg_client False (store (example_world [Some network_error]))) =
     Inl network_error
   \<and> fst (useOrders_queryFn pg_client (example_world [Some network_error])) = Inl network_error"
proof -
  have h: "fst (select_orders pg_client False (store (example_world [Some network_error]))) =
             Inl network_error"
    by (simp add: pg_client_def pg_select_orders_eq next_fault_def)
  from useOrders_propagates_error [OF h] h show ?thesis by simp
qed

text \<open>
  C9. Create-order with an empty \<^verbatim>\<open>items\<close> array, the store answering both requests: it
  succeeds, one row is added to \<^verbatim>\<open>orders\<close>, \<^verbatim>\<open>order_items\<close> is unchanged, and the item
  insert is still sent, with the empty array.
\<close>

theorem useCreateOrder_without_items:
  assumes "no_faults 2 (store w)"
  shows "\<exists>order. fst (useCreateOrder pg_client (d, []) w) = Inr order
      \<and> tbl_orders (store (snd (useCreateOrder pg_client (d, []) w))) =
          tbl_orders (store w) @ [order]
      \<and> tbl_order_items (store (snd (useCreateOrder pg_client (d, []) w))) =
          tbl_order_items (store w)
      \<and> sent (snd (useCreateOrder pg_client (d, []) w)) =
          sent w @ [Insert_order d, Insert_order_items []]"
proof -
  from create_succeeds [OF assms, of d "[]"]
  obtain order where ok: "fst (useCreateOrder_mutationFn pg_client (d, []) w) = Inr order" ..
  note st = create_Inr_steps [OF ok]
  note o = pg_insert_order_Inr [OF st(1)]
  note i = pg_insert_order_items_Inr [OF st(2)]
  have e: "orderItems order [] = []" by (simp add: orderItems_def)
  have u: "useCreateOrder pg_client (d, []) w =
             (Inr order,
              useCreateOrder_onSuccess (snd (useCreateOrder_mutationFn pg_client (d, []) w)))"
    using ok by (simp add: useCreateOrder_def useMutation_eq)
  show ?thesis
    using i(1,2) o(2,3)
    by (simp add: u st(3) e useCreateOrder_onSuccess_def toast_def invalidateQueries_def)
qed

theorem useCreateOrder_without_items_witness:
  "no_faults 2 (store (example_world []))
   \<and> (\<exists>order. fst (useCreateOrder pg_client (example_orderData, []) (example_world [])) =
         Inr order
       \<and> tbl_orders (store (snd (useCreateOrder pg_client (example_orderData, [])
                                   (example_world [])))) =
           [example_order ''o1'' 10, example_order ''o2'' 30, example_order ''o3'' 20, order])
   \<and> tbl_order_items (store (snd (useCreateOrder pg_client (example_orderData, [])
                                    (example_world [])))) = [example_item]
   \<and> sent (snd (useCreateOrder pg_client (example_orderData, []) (example_world []))) =
       [Insert_order example_orderData, Insert_order_items []]"
proof -
  let ?w = "example_world []"
  have h: "no_faults 2 (store ?w)" by simp
  from useCreateOrder_without_items [OF h, of example_orderData] h show ?thesis
    by (auto simp: example_tbl_orders example_tbl_order_items)
qed

text \<open>
  C10. Update-status for an id that no row of \<^verbatim>\<open>orders\<close> has: the run fails (with the error
  of \<^verbatim>\<open>.single()\<close> when the store answers the request), the query cache is what it was,
  and no table has changed.
\<close>

theorem useUpdateOrderStatus_unknown_id_fails:
  assumes "i \<notin> o_id ` set (tbl_orders (store w))"
  shows "\<exists>e. fst (useUpdateOrderStatus pg_client (i, st) w) = Inl e
      \<and> (no_faults 1 (store w) \<longrightarrow> e = PGRST116)
      \<and> queryCache (snd (useUpdateOrderStatus pg_client (i, st) w)) = queryCache w
      \<and> tbl_orders (store (snd (useUpdateOrderStatus pg_client (i, st) w))) =
          tbl_orders (store w)
      \<and> tbl_order_items (store (snd (useUpdateOrderStatus pg_client (i, st) w))) =
          tbl_order_items (store w)
      \<and> tbl_menu_items (store (snd (useUpdateOrderStatus pg_client (i, st) w))) =
          tbl_menu_items (store w)"
proof -
  let ?s = "store w"
  let ?p = "\<lparr>patch_status = st, patch_updated_at = date_now w\<rparr>"
  let ?e = "case fst (next_fault ?s) of Some e \<Rightarrow> e | None \<Rightarrow> PGRST116"
  have r: "fst (pg_update_order ?p i ?s) = Inl ?e"
    by (rule pg_update_order_unknown [OF assms])
  have m: "useUpdateOrderStatus_mutationFn pg_client (i, st) w =
             (Inl ?e, w\<lparr>store := snd (pg_update_order ?p i ?s),
                        sent := sent w @ [Update_order ?p i]\<rparr>)"
    using r by (simp add: useUpdateOrderStatus_mutationFn_eq await_update_order_eq pg_client_def)
  have u: "useUpdateOrderStatus pg_client (i, st) w =
             (Inl ?e, useUpdateOrderStatus_onError ?e
                        (w\<lparr>store := snd (pg_update_order ?p i ?s),
                           sent := sent w @ [Update_order ?p i]\<rparr>))"
    by (simp add: useUpdateOrderStatus_def useMutation_def m)
  have nf: "no_faults 1 ?s \<longrightarrow> ?e = PGRST116"
    using no_faults_Suc [of 0 ?s] by auto
  show ?thesis
    using nf pg_update_order_Inl [OF r]
    by (simp add: u useUpdateOrderStatus_onError_def toast_def)
qed

theorem useUpdateOrderStatus_unknown_id_fails_witness:
  "''o9'' \<notin> o_id ` set (tbl_orders (store (example_world [])))
   \<and> no_faults 1 (store (example_world []))
   \<and> fst (useUpdateOrderStatus pg_client (''o9'', Served) (example_world [])) = Inl PGRST116
   \<and> queryCache (snd (useUpdateOrderStatus pg_client (''o9'', Served) (example_world []))) =
       queryCache (example_world [])
   \<and> tbl_orders (store (snd (useUpdateOrderStatus pg_client (''o9'', Served)
                               (example_world [])))) =
       [example_order ''o1'' 10, example_order ''o2'' 30, example_order ''o3'' 20]"
proof -
  let ?w = "example_world []"
  have h: "''o9'' \<notin> o_id ` set (tbl_orders (store ?w))"
    by (simp add: example_tbl_orders)
  have n: "no_faults 1 (store ?w)" by simp
  from useUpdateOrderStatus_unknown_id_fails [OF h, of Served] h n show ?thesis
    by (auto simp: example_tbl_orders)
qed

end
